theory Spec2Isabelle
  imports Main "HOL-Library.List_Lexorder" "HOL-Library.Char_ord"
begin

section \<open>The inmate spider of jailscraper: seeding, URL enumeration, storage keys\<close>

text \<open>
  The development embeds \<^verbatim>\<open>jailscraper/spiders/inmate_spider.py\<close>. The module is glue code
  around the Python standard library (\<^verbatim>\<open>datetime\<close>, \<^verbatim>\<open>str\<close>, \<^verbatim>\<open>os.path\<close>), so the first
  sections model the library operations the spider calls, and the later ones the methods of
  \<^verbatim>\<open>InmatesSpider\<close> themselves, each under the name it has in the source.
\<close>

subsection \<open>Exceptions\<close>

datatype error =
    ValueError
  | KeyError
  | IndexError
  | OverflowError
  | FileNotFoundError
  | OSError
  | RequestException

subsection \<open>\<^verbatim>\<open>datetime\<close>: calendar dates at midnight\<close>

text \<open>
  Every \<^verbatim>\<open>datetime\<close> of the spider is a date at midnight: \<^verbatim>\<open>strptime\<close> with a pure date
  format leaves the time zero and \<^verbatim>\<open>_today\<close> is combined with \<^verbatim>\<open>datetime.min.time()\<close>. The
  model keeps the three date attributes.
\<close>

record datetime =
  year :: nat
  month :: nat
  day :: nat

definition is_leap :: "nat \<Rightarrow> bool" where
  "is_leap y = (y mod 4 = 0 \<and> (y mod 100 \<noteq> 0 \<or> y mod 400 = 0))"

definition days_in_month :: "nat \<Rightarrow> nat \<Rightarrow> nat" where
  "days_in_month y m =
     (if m = 2 then (if is_leap y then 29 else 28)
      else if m = 4 \<or> m = 6 \<or> m = 9 \<or> m = 11 then 30
      else if 1 \<le> m \<and> m \<le> 12 then 31
      else 0)"

text \<open>The dates \<^verbatim>\<open>datetime\<close> can hold: years 1 (MINYEAR) to 9999 (MAXYEAR).\<close>

definition valid_date :: "datetime \<Rightarrow> bool" where
  "valid_date d =
     (1 \<le> year d \<and> year d \<le> 9999 \<and> 1 \<le> month d \<and> month d \<le> 12 \<and>
      1 \<le> day d \<and> day d \<le> days_in_month (year d) (month d))"

text \<open>\<^verbatim>\<open>a < b\<close> on datetimes compares the attribute tuples lexicographically.\<close>

definition date_less :: "datetime \<Rightarrow> datetime \<Rightarrow> bool" where
  "date_less a b =
     (year a < year b \<or>
      (year a = year b \<and> (month a < month b \<or> (month a = month b \<and> day a < day b))))"

text \<open>
  \<^verbatim>\<open>d + ONE_DAY\<close> and \<^verbatim>\<open>d - ONE_DAY\<close> with \<^verbatim>\<open>ONE_DAY = timedelta(days=1)\<close>. Leaving the
  range of years raises \<^verbatim>\<open>OverflowError\<close>.
\<close>

definition add_one_day :: "datetime \<Rightarrow> error + datetime" where
  "add_one_day d =
     (if day d < days_in_month (year d) (month d) then Inr (d\<lparr>day := day d + 1\<rparr>)
      else if month d < 12 then Inr (d\<lparr>month := month d + 1, day := 1\<rparr>)
      else if year d < 9999 then Inr (d\<lparr>year := year d + 1, month := 1, day := 1\<rparr>)
      else Inl OverflowError)"

definition sub_one_day :: "datetime \<Rightarrow> error + datetime" where
  "sub_one_day d =
     (if 1 < day d then Inr (d\<lparr>day := day d - 1\<rparr>)
      else if 1 < month d then
        Inr (d\<lparr>month := month d - 1, day := days_in_month (year d) (month d - 1)\<rparr>)
      else if 1 < year d then Inr (d\<lparr>year := year d - 1, month := 12, day := 31\<rparr>)
      else Inl OverflowError)"

text \<open>
  The proleptic Gregorian ordinal of CPython's \<^verbatim>\<open>_ymd2ord\<close> (day 1 is 0001-01-01), the
  number \<^verbatim>\<open>timedelta\<close> arithmetic works on: the year's days before the month are the table
  \<^verbatim>\<open>_DAYS_BEFORE_MONTH\<close> plus the leap day. It is used to check the calendar functions above
  against the library's day count.
\<close>

definition days_before_year :: "nat \<Rightarrow> nat" where
  "days_before_year y = (y - 1) * 365 + (y - 1) div 4 - (y - 1) div 100 + (y - 1) div 400"

definition days_before_month :: "nat \<Rightarrow> nat \<Rightarrow> nat" where
  "days_before_month y m =
     (if m \<le> 1 then 0
      else if m = 2 then 31
      else (if is_leap y then 1 else 0) +
        (if m = 3 then 59 else if m = 4 then 90 else if m = 5 then 120
         else if m = 6 then 151 else if m = 7 then 181 else if m = 8 then 212
         else if m = 9 then 243 else if m = 10 then 273 else if m = 11 then 304
         else 334))"

definition toordinal :: "datetime \<Rightarrow> nat" where
  "toordinal d = days_before_year (year d) + days_before_month (year d) (month d) + day d"

subsection \<open>\<^verbatim>\<open>str\<close>: decimal formatting, splitting, slicing\<close>

definition digit_char :: "nat \<Rightarrow> char" where
  "digit_char n = ''0123456789'' ! (n mod 10)"

definition is_digit :: "char \<Rightarrow> bool" where
  "is_digit c = (48 \<le> (of_char c :: nat) \<and> (of_char c :: nat) \<le> 57)"

definition digit_val :: "char \<Rightarrow> nat" where
  "digit_val c = of_char c - 48"

text \<open>\<^verbatim>\<open>str(n)\<close> for a non-negative integer.\<close>

fun dec :: "nat \<Rightarrow> string" where
  "dec n = (if n < 10 then [digit_char n] else dec (n div 10) @ [digit_char (n mod 10)])"

declare dec.simps [simp del]

text \<open>\<^verbatim>\<open>s.zfill(w)\<close> for an unsigned digit string.\<close>

definition zfill :: "nat \<Rightarrow> string \<Rightarrow> string" where
  "zfill w s = replicate (w - length s) (CHR ''0'') @ s"

text \<open>The format specification \<^verbatim>\<open>{:03d}\<close>: sign first, then zeros up to width three.\<close>

definition format_03d :: "int \<Rightarrow> string" where
  "format_03d n =
     (if n < 0 then CHR ''-'' # zfill 2 (dec (nat (- n))) else zfill 3 (dec (nat n)))"

text \<open>
  \<^verbatim>\<open>strftime('%Y-%m%d')\<close> and \<^verbatim>\<open>strftime('%Y-%m-%d')\<close>: the year as four digits, month and
  day as two.
\<close>

definition strftime_Y_md :: "datetime \<Rightarrow> string" where
  "strftime_Y_md d =
     zfill 4 (dec (year d)) @ ''-'' @ zfill 2 (dec (month d)) @ zfill 2 (dec (day d))"

definition strftime_Y_m_d :: "datetime \<Rightarrow> string" where
  "strftime_Y_m_d d =
     zfill 4 (dec (year d)) @ ''-'' @ zfill 2 (dec (month d)) @ ''-'' @ zfill 2 (dec (day d))"

text \<open>
  \<^verbatim>\<open>datetime.strptime(s, '%Y-%m-%d')\<close>. The directives are the regular expressions of
  \<^verbatim>\<open>_strptime\<close>: \<^verbatim>\<open>%Y\<close> is four digits, \<^verbatim>\<open>%m\<close> is \<^verbatim>\<open>1[0-2]|0[1-9]|[1-9]\<close>, \<^verbatim>\<open>%d\<close> is
  \<^verbatim>\<open>3[0-1]|[1-2]\d|0[1-9]|[1-9]| [1-9]\<close>; the whole string has to be consumed, and the
  fields have to form a date of the calendar. Anything else raises \<^verbatim>\<open>ValueError\<close>.
\<close>

definition nonzero_digit :: "char \<Rightarrow> bool" where
  "nonzero_digit c = (is_digit c \<and> c \<noteq> CHR ''0'')"

definition parse_month :: "string \<Rightarrow> nat option" where
  "parse_month tok =
     (case tok of
        [a, b] \<Rightarrow>
          if a = CHR ''1'' \<and> (b = CHR ''0'' \<or> b = CHR ''1'' \<or> b = CHR ''2'')
            then Some (10 + digit_val b)
          else if a = CHR ''0'' \<and> nonzero_digit b then Some (digit_val b)
          else None
      | [a] \<Rightarrow> if nonzero_digit a then Some (digit_val a) else None
      | _ \<Rightarrow> None)"

definition parse_day :: "string \<Rightarrow> nat option" where
  "parse_day tok =
     (case tok of
        [a, b] \<Rightarrow>
          if a = CHR ''3'' \<and> (b = CHR ''0'' \<or> b = CHR ''1'') then Some (30 + digit_val b)
          else if (a = CHR ''1'' \<or> a = CHR ''2'') \<and> is_digit b
            then Some (10 * digit_val a + digit_val b)
          else if a = CHR ''0'' \<and> nonzero_digit b then Some (digit_val b)
          else if a = CHR '' '' \<and> nonzero_digit b then Some (digit_val b)
          else None
      | [a] \<Rightarrow> if nonzero_digit a then Some (digit_val a) else None
      | _ \<Rightarrow> None)"

definition strptime_Y_m_d :: "string \<Rightarrow> error + datetime" where
  "strptime_Y_m_d s =
     (case s of
        y1 # y2 # y3 # y4 # sep # rest \<Rightarrow>
          if is_digit y1 \<and> is_digit y2 \<and> is_digit y3 \<and> is_digit y4 \<and> sep = CHR ''-'' then
            (case dropWhile (\<lambda>c. c \<noteq> CHR ''-'') rest of
               [] \<Rightarrow> Inl ValueError
             | _ # dtok \<Rightarrow>
                 (case parse_month (takeWhile (\<lambda>c. c \<noteq> CHR ''-'') rest) of
                    None \<Rightarrow> Inl ValueError
                  | Some m \<Rightarrow>
                      (case parse_day dtok of
                         None \<Rightarrow> Inl ValueError
                       | Some dd \<Rightarrow>
                           (let d = \<lparr>year = 1000 * digit_val y1 + 100 * digit_val y2 +
                                            10 * digit_val y3 + digit_val y4,
                                     month = m, day = dd\<rparr>
                            in if valid_date d then Inr d else Inl ValueError))))
          else Inl ValueError
      | _ \<Rightarrow> Inl ValueError)"

text \<open>\<^verbatim>\<open>s.split(sep)\<close> for a one-character separator: never the empty list.\<close>

fun split_on :: "char \<Rightarrow> string \<Rightarrow> string list" where
  "split_on sep [] = [[]]"
| "split_on sep (c # cs) =
     (if c = sep then [] # split_on sep cs
      else (case split_on sep cs of
              [] \<Rightarrow> [[c]]
            | w # ws \<Rightarrow> (c # w) # ws))"

text \<open>
  \<^verbatim>\<open>s.splitlines()\<close>: the lines of the text without their terminators; a terminator at the
  end of the text opens no further line. The terminators among the 8-bit characters are LF,
  CR (CR LF counting once), VT, FF, FS, GS, RS and NEL.
\<close>

definition is_linebreak :: "char \<Rightarrow> bool" where
  "is_linebreak c = ((of_char c :: nat) \<in> {10, 11, 12, 13, 28, 29, 30, 133})"

fun splitlines_from :: "string \<Rightarrow> string \<Rightarrow> string list" where
  "splitlines_from cur [] = (if cur = [] then [] else [cur])"
| "splitlines_from cur [c] =
     (if is_linebreak c then [cur] else [cur @ [c]])"
| "splitlines_from cur (c # c' # cs) =
     (if c = CHR 0x0D \<and> c' = CHR 0x0A then cur # splitlines_from [] cs
      else if is_linebreak c then cur # splitlines_from [] (c' # cs)
      else splitlines_from (cur @ [c]) (c' # cs))"

definition splitlines :: "string \<Rightarrow> string list" where
  "splitlines s = splitlines_from [] s"

text \<open>\<^verbatim>\<open>xs[-1]\<close>, \<^verbatim>\<open>xs[0]\<close> and \<^verbatim>\<open>xs.pop()\<close> raise \<^verbatim>\<open>IndexError\<close> on the empty list.\<close>

definition py_last :: "'a list \<Rightarrow> error + 'a" where
  "py_last xs = (if xs = [] then Inl IndexError else Inr (last xs))"

definition py_first :: "'a list \<Rightarrow> error + 'a" where
  "py_first xs = (case xs of [] \<Rightarrow> Inl IndexError | x # _ \<Rightarrow> Inr x)"

text \<open>
  The slice \<^verbatim>\<open>xs[i:]\<close>: a negative start counts from the end, and the start is then clamped
  to the list.
\<close>

definition py_slice_from :: "int \<Rightarrow> 'a list \<Rightarrow> 'a list" where
  "py_slice_from i xs =
     (let n = int (length xs);
          j = (if i < 0 then i + n else i);
          k = (if j < 0 then 0 else if n < j then n else j)
      in drop (nat k) xs)"

text \<open>\<^verbatim>\<open>os.path.join(a, b)\<close> on POSIX, for two components.\<close>

definition path_join :: "string \<Rightarrow> string \<Rightarrow> string" where
  "path_join a b =
     (if b \<noteq> [] \<and> hd b = CHR ''/'' then b
      else if a = [] \<or> last a = CHR ''/'' then a @ b
      else a @ ''/'' @ b)"

subsection \<open>Configuration, environment and spider state\<close>

text \<open>
  \<^verbatim>\<open>app_config\<close> is not part of the module; its constants are the fields of a record. The
  URL template has one replacement field, so \<^verbatim>\<open>INMATE_URL_TEMPLATE\<close> is kept as the text
  before and the text after that field.
\<close>

record app_config =
  USE_S3_STORAGE :: bool
  USE_LOCAL_STORAGE :: bool
  S3_BUCKET :: string
  TARGET :: string
  INMATE_URL_TEMPLATE :: "string \<times> string"
  MAX_DEFAULT_JAIL_NUMBER :: int
  FALLBACK_START_DATE :: string

text \<open>
  What the spider reads from outside: the directory listing of \<^verbatim>\<open>data/daily\<close>, the text of
  a file opened for reading, the text of an HTTP response, the rows \<^verbatim>\<open>csv.DictReader\<close> makes
  of a non-empty text, and the page extractor \<^verbatim>\<open>InmatePage\<close>. What it writes: files
  under \<^verbatim>\<open>data/raw\<close> and objects of the bucket; a write to a path or key may fail with the
  fault the environment holds for it.
\<close>

type_synonym row = "string \<rightharpoonup> string"

record 'v inmate =
  age_at_booking :: 'v
  bail_amount :: 'v
  booking_date :: string
  booking_id :: string
  charges :: 'v
  court_date :: 'v
  court_location :: 'v
  gender :: 'v
  inmate_hash :: 'v
  height :: 'v
  housing_location :: 'v
  race :: 'v
  weight :: 'v

record 'v env =
  listdir :: "string \<Rightarrow> error + string list"
  open_read :: "string \<Rightarrow> error + string"
  requests_get :: "string \<Rightarrow> error + string"
  csv_rows :: "string \<Rightarrow> row list"
  InmatePage :: "string \<Rightarrow> 'v inmate"
  makedirs_fault :: "string \<Rightarrow> error option"
  write_fault :: "string \<Rightarrow> error option"
  upload_fault :: "string \<Rightarrow> error option"

record storage =
  local_files :: "string \<rightharpoonup> string"
  bucket :: "string \<rightharpoonup> string"

record spider =
  today :: datetime
  yesterday :: datetime
  testing :: bool
  start_date :: "datetime option"

text \<open>The output row of \<^verbatim>\<open>parse\<close>: the extracted fields and the flag.\<close>

record 'v item =
  Age_At_Booking :: 'v
  Bail_Amount :: 'v
  Booking_Date :: string
  Booking_Id :: string
  Charges :: 'v
  Court_Date :: 'v
  Court_Location :: 'v
  Gender :: 'v
  Inmate_Hash :: 'v
  Height :: 'v
  Housing_Location :: 'v
  Race :: 'v
  Weight :: 'v
  Incomplete :: bool

subsection \<open>\<^verbatim>\<open>InmatesSpider\<close>\<close>

text \<open>
  \<^verbatim>\<open>__init__\<close>: \<^verbatim>\<open>date.today()\<close> is the argument \<open>now\<close>; \<^verbatim>\<open>_yesterday\<close> is computed from it
  once.
\<close>

definition init :: "datetime \<Rightarrow> bool \<Rightarrow> error + spider" where
  "init now tst =
     (case sub_one_day now of
        Inl e \<Rightarrow> Inl e
      | Inr y \<Rightarrow> Inr \<lparr>today = now, yesterday = y, testing = tst, start_date = None\<rparr>)"

text \<open>\<^verbatim>\<open>app_config.INMATE_URL_TEMPLATE.format(x)\<close>.\<close>

definition url_format :: "app_config \<Rightarrow> string \<Rightarrow> string" where
  "url_format cfg x = fst (INMATE_URL_TEMPLATE cfg) @ x @ snd (INMATE_URL_TEMPLATE cfg)"

text \<open>
  \<^verbatim>\<open>csv.DictReader(f)\<close>, read to the end: no rows for an input without lines (the empty list
  that stands for a missing seed file, or an empty text), the environment's rows otherwise.
\<close>

definition DictReader :: "'v env \<Rightarrow> string \<Rightarrow> row list" where
  "DictReader ev f = (if f = [] then [] else csv_rows ev f)"

subsubsection \<open>\<^verbatim>\<open>_get_local_seed_file\<close>\<close>

definition get_local_seed_file :: "app_config \<Rightarrow> 'v env \<Rightarrow> error + (string \<times> string)" where
  "get_local_seed_file cfg ev =
     (case (case listdir ev ''data/daily'' of
              Inl FileNotFoundError \<Rightarrow> Inr []
            | Inl e \<Rightarrow> Inl e
            | Inr names \<Rightarrow> Inr (sort names)) of
        Inl e \<Rightarrow> Inl e
      | Inr files \<Rightarrow>
          if length files = 0 then Inr (FALLBACK_START_DATE cfg, [])
          else
            (let last_file = path_join ''data/daily'' (last files) in
             case py_first (split_on (CHR ''.'') (last files)) of
               Inl e \<Rightarrow> Inl e
             | Inr last_date \<Rightarrow>
                 (case open_read ev last_file of
                    Inl e \<Rightarrow> Inl e
                  | Inr f \<Rightarrow> Inr (last_date, f))))"

subsubsection \<open>\<^verbatim>\<open>_get_s3_seed_file\<close>\<close>

definition manifest_url :: "app_config \<Rightarrow> string" where
  "manifest_url cfg =
     (let target = (if TARGET cfg \<noteq> [] then TARGET cfg @ ''/'' else TARGET cfg)
      in ''https://s3.amazonaws.com/'' @ S3_BUCKET cfg @ ''/'' @ target @ ''manifest.csv'')"

definition get_s3_seed_file :: "app_config \<Rightarrow> 'v env \<Rightarrow> error + (string \<times> string)" where
  "get_s3_seed_file cfg ev =
     (case requests_get ev (manifest_url cfg) of
        Inl e \<Rightarrow> Inl e
      | Inr text \<Rightarrow>
          (case py_last (splitlines text) of
             Inl e \<Rightarrow> Inl e
           | Inr seed_url \<Rightarrow>
               (case py_last (split_on (CHR ''/'') seed_url) of
                  Inl e \<Rightarrow> Inl e
                | Inr name \<Rightarrow>
                    (case py_first (split_on (CHR ''.'') name) of
                       Inl e \<Rightarrow> Inl e
                     | Inr last_date \<Rightarrow>
                         (case requests_get ev seed_url of
                            Inl e \<Rightarrow> Inl e
                          | Inr seed_text \<Rightarrow> Inr (last_date, seed_text))))))"

subsubsection \<open>\<^verbatim>\<open>_get_seed_file\<close>\<close>

definition get_seed_file :: "app_config \<Rightarrow> 'v env \<Rightarrow> error + (string \<times> string)" where
  "get_seed_file cfg ev =
     (if USE_S3_STORAGE cfg then get_s3_seed_file cfg ev else get_local_seed_file cfg ev)"

subsubsection \<open>\<^verbatim>\<open>_generate_urls\<close>\<close>

text \<open>The comprehension over the seed rows; \<^verbatim>\<open>row['Booking_Id']\<close> raises on a missing key.\<close>

fun seed_urls :: "app_config \<Rightarrow> row list \<Rightarrow> error + string list" where
  "seed_urls cfg [] = Inr []"
| "seed_urls cfg (r # rs) =
     (case r ''Booking_Id'' of
        None \<Rightarrow> Inl KeyError
      | Some b \<Rightarrow>
          (case seed_urls cfg rs of
             Inl e \<Rightarrow> Inl e
           | Inr us \<Rightarrow> Inr (url_format cfg b # us)))"

text \<open>The inner \<^verbatim>\<open>for\<close> loop: the URLs of one day, numbers 1 to the configured maximum.\<close>

definition jailnumber :: "datetime \<Rightarrow> int \<Rightarrow> string" where
  "jailnumber d num = strftime_Y_md d @ format_03d num"

definition day_urls :: "app_config \<Rightarrow> datetime \<Rightarrow> string list" where
  "day_urls cfg d =
     map (\<lambda>num. url_format cfg (jailnumber d num)) [1 .. MAX_DEFAULT_JAIL_NUMBER cfg]"

text \<open>The \<^verbatim>\<open>while\<close> loop, from the cursor \<open>last_date\<close>.\<close>

function scan_universe ::
  "app_config \<Rightarrow> datetime \<Rightarrow> datetime \<Rightarrow> string list \<Rightarrow> error + string list" where
  "scan_universe cfg tdy last_date urls =
     (if date_less last_date tdy then
        (case add_one_day last_date of
           Inl e \<Rightarrow> Inl e
         | Inr next_date \<Rightarrow> scan_universe cfg tdy next_date (urls @ day_urls cfg last_date))
      else Inr urls)"
  by pat_completeness auto

termination scan_universe
proof (relation "measures [\<lambda>(cfg, tdy, d, urls). Suc (year tdy) - year d,
                           \<lambda>(cfg, tdy, d, urls). 13 - month d,
                           \<lambda>(cfg, tdy, d, urls). 32 - day d]")
  show "wf (measures [\<lambda>(cfg, tdy, d, urls). Suc (year tdy) - year d,
                      \<lambda>(cfg, tdy, d, urls). 13 - month d,
                      \<lambda>(cfg, tdy, d, urls). 32 - day d])"
    by simp
next
  fix cfg :: app_config and tdy last_date :: datetime and urls :: "string list"
    and next_date :: datetime
  assume lt: "date_less last_date tdy" and nx: "add_one_day last_date = Inr next_date"
  have le: "year last_date \<le> year tdy"
    using lt by (auto simp: date_less_def)
  have d31: "days_in_month (year last_date) (month last_date) \<le> 31"
    by (simp add: days_in_month_def)
  show "((cfg, tdy, next_date, urls @ day_urls cfg last_date), (cfg, tdy, last_date, urls))
        \<in> measures [\<lambda>(cfg, tdy, d, urls). Suc (year tdy) - year d,
                     \<lambda>(cfg, tdy, d, urls). 13 - month d,
                     \<lambda>(cfg, tdy, d, urls). 32 - day d]"
    using nx le d31 by (auto simp: add_one_day_def split: if_splits)
qed

declare scan_universe.simps [simp del]

text \<open>
  \<^verbatim>\<open>_generate_urls\<close>: the seed, its date, the seed URLs, the cursor, the scan, and the
  sample of a testing run. The assignment to \<^verbatim>\<open>self._start_date\<close> is the updated spider.
\<close>

definition generate_urls ::
  "app_config \<Rightarrow> 'v env \<Rightarrow> spider \<Rightarrow> error + (spider \<times> string list)" where
  "generate_urls cfg ev self =
     (case get_seed_file cfg ev of
        Inl e \<Rightarrow> Inl e
      | Inr (last_date_str, f) \<Rightarrow>
          (case strptime_Y_m_d last_date_str of
             Inl e \<Rightarrow> Inl e
           | Inr last_date \<Rightarrow>
               (case seed_urls cfg (DictReader ev f) of
                  Inl e \<Rightarrow> Inl e
                | Inr urls \<Rightarrow>
                    (case (if length urls \<noteq> 0 then add_one_day last_date else Inr last_date) of
                       Inl e \<Rightarrow> Inl e
                     | Inr cursor \<Rightarrow>
                         (case scan_universe cfg (today self) cursor urls of
                            Inl e \<Rightarrow> Inl e
                          | Inr all_urls \<Rightarrow>
                              Inr (self\<lparr>start_date := Some last_date\<rparr>,
                                   if testing self
                                   then py_slice_from (int (length all_urls) - 600) all_urls
                                   else all_urls))))))"

subsubsection \<open>\<^verbatim>\<open>_generate_page_filename\<close>, \<^verbatim>\<open>_save_local\<close>, \<^verbatim>\<open>_save_to_s3\<close>\<close>

definition generate_page_filename :: "spider \<Rightarrow> 'v inmate \<Rightarrow> string" where
  "generate_page_filename self inmate =
     strftime_Y_m_d (today self) @ ''-'' @ booking_id inmate @ ''.html''"

text \<open>
  Both methods return nothing; the model returns the storage they leave behind, or the
  exception that \<^verbatim>\<open>os.makedirs\<close>, \<^verbatim>\<open>open\<close>/\<^verbatim>\<open>write\<close> or \<^verbatim>\<open>upload_fileobj\<close> raised. Neither
  method catches anything.
\<close>

definition save_local ::
  "'v env \<Rightarrow> spider \<Rightarrow> storage \<Rightarrow> string \<Rightarrow> 'v inmate \<Rightarrow> error + storage" where
  "save_local ev self st body inmate =
     (case makedirs_fault ev ''data/raw'' of
        Some e \<Rightarrow> Inl e
      | None \<Rightarrow>
          (let filepath = path_join ''data/raw'' (generate_page_filename self inmate) in
           case write_fault ev filepath of
             Some e \<Rightarrow> Inl e
           | None \<Rightarrow> Inr (st\<lparr>local_files := (local_files st)(filepath \<mapsto> body)\<rparr>)))"

text \<open>The key handed to \<^verbatim>\<open>upload_fileobj\<close>.\<close>

definition s3_key :: "app_config \<Rightarrow> spider \<Rightarrow> 'v inmate \<Rightarrow> string" where
  "s3_key cfg self inmate =
     (let key = TARGET cfg @ ''/raw/'' @ generate_page_filename self inmate
      in if key \<noteq> [] \<and> hd key = CHR ''/'' then tl key else key)"

definition save_to_s3 ::
  "app_config \<Rightarrow> 'v env \<Rightarrow> spider \<Rightarrow> storage \<Rightarrow> string \<Rightarrow> 'v inmate \<Rightarrow> error + storage" where
  "save_to_s3 cfg ev self st body inmate =
     (let key = s3_key cfg self inmate in
      case upload_fault ev key of
        Some e \<Rightarrow> Inl e
      | None \<Rightarrow> Inr (st\<lparr>bucket := (bucket st)(key \<mapsto> body)\<rparr>))"

subsubsection \<open>\<^verbatim>\<open>_is_complete_record\<close>\<close>

definition is_complete_record :: "spider \<Rightarrow> 'v inmate \<Rightarrow> error + bool" where
  "is_complete_record self inmate =
     (case strptime_Y_m_d (booking_date inmate) of
        Inl e \<Rightarrow> Inl e
      | Inr bd \<Rightarrow> Inr (date_less bd (yesterday self)))"

subsubsection \<open>\<^verbatim>\<open>parse\<close>\<close>

text \<open>
  \<^verbatim>\<open>parse\<close> is a generator with one \<^verbatim>\<open>yield\<close> at its end. The model returns the storage as
  the call leaves it, and either the item yielded or the exception that ended the call
  before the \<^verbatim>\<open>yield\<close>.
\<close>

definition parse ::
  "app_config \<Rightarrow> 'v env \<Rightarrow> spider \<Rightarrow> storage \<Rightarrow> string \<Rightarrow> storage \<times> (error + 'v item)" where
  "parse cfg ev self st body =
     (let inmate = InmatePage ev body in
      case (if USE_LOCAL_STORAGE cfg then save_local ev self st body inmate else Inr st) of
        Inl e \<Rightarrow> (st, Inl e)
      | Inr st1 \<Rightarrow>
          (case (if USE_S3_STORAGE cfg then save_to_s3 cfg ev self st1 body inmate
                 else Inr st1) of
             Inl e \<Rightarrow> (st1, Inl e)
           | Inr st2 \<Rightarrow>
               (case is_complete_record self inmate of
                  Inl e \<Rightarrow> (st2, Inl e)
                | Inr flag \<Rightarrow>
                    (st2,
                     Inr \<lparr>Age_At_Booking = age_at_booking inmate,
                          Bail_Amount = bail_amount inmate,
                          Booking_Date = booking_date inmate,
                          Booking_Id = booking_id inmate,
                          Charges = charges inmate,
                          Court_Date = court_date inmate,
                          Court_Location = court_location inmate,
                          Gender = gender inmate,
                          Inmate_Hash = inmate_hash inmate,
                          Height = height inmate,
                          Housing_Location = housing_location inmate,
                          Race = race inmate,
                          Weight = weight inmate,
                          Incomplete = flag\<rparr>))))"

subsection \<open>An example run\<close>

text \<open>
  A configuration, an environment without seed files whose extractor reads the booking date
  from the page body, and the spider of 3 June 2023; the closed examples below evaluate the
  model on them and on variants of them.
\<close>

definition example_config :: app_config where
  "example_config =
     \<lparr>USE_S3_STORAGE = False, USE_LOCAL_STORAGE = True, S3_BUCKET = ''bucket'', TARGET = '''',
      INMATE_URL_TEMPLATE = (''http://example.org/details?jailnumber='', ''''),
      MAX_DEFAULT_JAIL_NUMBER = 50, FALLBACK_START_DATE = ''2023-01-01''\<rparr>"

definition example_inmate :: "string \<Rightarrow> unit inmate" where
  "example_inmate body =
     \<lparr>age_at_booking = (), bail_amount = (), booking_date = body, booking_id = ''A1'',
      charges = (), court_date = (), court_location = (), gender = (), inmate_hash = (),
      height = (), housing_location = (), race = (), weight = ()\<rparr>"

definition example_env :: "unit env" where
  "example_env =
     \<lparr>listdir = (\<lambda>p. Inl FileNotFoundError), open_read = (\<lambda>p. Inl FileNotFoundError),
      requests_get = (\<lambda>u. Inl RequestException), csv_rows = (\<lambda>t. []),
      InmatePage = example_inmate,
      makedirs_fault = (\<lambda>p. None), write_fault = (\<lambda>p. None), upload_fault = (\<lambda>k. None)\<rparr>"

definition example_spider :: spider where
  "example_spider =
     \<lparr>today = \<lparr>year = 2023, month = 6, day = 3\<rparr>,
      yesterday = \<lparr>year = 2023, month = 6, day = 2\<rparr>, testing = False, start_date = None\<rparr>"

definition empty_storage :: storage where
  "empty_storage = \<lparr>local_files = Map.empty, bucket = Map.empty\<rparr>"

text \<open>
  The same environment with a seed directory: two partitions, listed out of order, the later
  one holding one record.
\<close>

definition example_seed_text :: string where
  "example_seed_text = ''Booking_Id'' @ [CHR 0x0A] @ ''A1''"

definition seeded_env :: "unit env" where
  "seeded_env =
     example_env
       \<lparr>listdir := (\<lambda>p. if p = ''data/daily'' then Inr [''2023-06-01.csv'', ''2023-05-31.csv'']
                        else Inl FileNotFoundError),
        open_read := (\<lambda>p. if p = ''data/daily/2023-06-01.csv''
                          then Inr example_seed_text
                          else Inl FileNotFoundError),
        csv_rows := (\<lambda>t. [[''Booking_Id'' \<mapsto> ''A1'']])\<rparr>"

text \<open>What a run returns of the list \<open>urls\<close> it built: the sample in testing mode.\<close>

abbreviation sampled :: "spider \<Rightarrow> string list \<Rightarrow> string list" where
  "sampled self urls \<equiv>
     (if testing self then py_slice_from (int (length urls) - 600) urls else urls)"

section \<open>Properties of the calendar model\<close>

lemma date_less_irrefl: "\<not> date_less a a"
  by (simp add: date_less_def)

lemma date_less_trans: "date_less a b \<Longrightarrow> date_less b c \<Longrightarrow> date_less a c"
  by (auto simp: date_less_def)

lemma date_less_total:
  fixes a b :: datetime
  shows "date_less a b \<or> a = b \<or> date_less b a"
  by (cases a, cases b) (auto simp: date_less_def)
lemma add_one_day_less: "add_one_day d = Inr d' \<Longrightarrow> date_less d d'"
  by (auto simp: add_one_day_def date_less_def split: if_splits)

lemma add_one_day_defined:
  "valid_date d \<Longrightarrow> valid_date e \<Longrightarrow> date_less d e \<Longrightarrow> \<exists>d'. add_one_day d = Inr d'"
  by (auto simp: add_one_day_def valid_date_def date_less_def)

lemma add_one_day_next:
  fixes d e :: datetime
  shows "valid_date d \<Longrightarrow> valid_date e \<Longrightarrow> date_less d e \<Longrightarrow> add_one_day d = Inr d'
    \<Longrightarrow> d' = e \<or> date_less d' e"
  by (cases d, cases e) (auto simp: add_one_day_def valid_date_def date_less_def split: if_splits)

lemma days_in_month_ge: "1 \<le> m \<Longrightarrow> m \<le> 12 \<Longrightarrow> 28 \<le> days_in_month y m"
  by (simp add: days_in_month_def)

lemma days_in_month_le: "days_in_month y m \<le> 31"
  by (simp add: days_in_month_def)

lemma add_one_day_valid:
  assumes "valid_date d" "add_one_day d = Inr d'"
  shows "valid_date d'"
proof -
  have v: "1 \<le> year d" "year d \<le> 9999" "1 \<le> month d" "month d \<le> 12" "1 \<le> day d"
    using assms(1) by (simp_all add: valid_date_def)
  consider (a) "day d < days_in_month (year d) (month d)" "d' = d\<lparr>day := day d + 1\<rparr>"
    | (b) "month d < 12" "d' = d\<lparr>month := month d + 1, day := 1\<rparr>"
    | (c) "year d < 9999" "d' = d\<lparr>year := year d + 1, month := 1, day := 1\<rparr>"
    using assms(2) by (auto simp: add_one_day_def split: if_splits)
  then show ?thesis
  proof cases
    case a
    then show ?thesis using v by (simp add: valid_date_def)
  next
    case b
    then show ?thesis
      using v days_in_month_ge[of "month d + 1" "year d"] by (simp add: valid_date_def)
  next
    case c
    then show ?thesis
      using v days_in_month_ge[of 1 "year d + 1"] by (simp add: valid_date_def)
  qed
qed

lemma sub_one_day_valid:
  assumes "valid_date d" "sub_one_day d = Inr d'"
  shows "valid_date d'"
proof -
  have v: "1 \<le> year d" "year d \<le> 9999" "1 \<le> month d" "month d \<le> 12" "1 \<le> day d"
      "day d \<le> days_in_month (year d) (month d)"
    using assms(1) by (simp_all add: valid_date_def)
  consider (a) "1 < day d" "d' = d\<lparr>day := day d - 1\<rparr>"
    | (b) "1 < month d"
        "d' = d\<lparr>month := month d - 1, day := days_in_month (year d) (month d - 1)\<rparr>"
    | (c) "1 < year d" "d' = d\<lparr>year := year d - 1, month := 12, day := 31\<rparr>"
    using assms(2) by (auto simp: sub_one_day_def split: if_splits)
  then show ?thesis
  proof cases
    case a
    then show ?thesis using v by (auto simp: valid_date_def)
  next
    case b
    have m: "1 \<le> month d - 1" "month d - 1 \<le> 12" using b(1) v(4) by arith+
    from days_in_month_ge[OF m, of "year d"]
    have "1 \<le> days_in_month (year d) (month d - 1)" by linarith
    with b m show ?thesis
      using v by (simp add: valid_date_def)
  next
    case c
    have "days_in_month (year d - 1) 12 = 31" by (simp add: days_in_month_def)
    with c show ?thesis
      using v by (auto simp: valid_date_def)
  qed
qed

lemma sub_add_one_day:
  assumes "valid_date d" "sub_one_day d = Inr d'"
  shows "add_one_day d' = Inr d"
proof -
  have v: "1 \<le> year d" "year d \<le> 9999" "1 \<le> month d" "month d \<le> 12" "1 \<le> day d"
      "day d \<le> days_in_month (year d) (month d)"
    using assms(1) by (simp_all add: valid_date_def)
  consider (a) "1 < day d" "d' = d\<lparr>day := day d - 1\<rparr>"
    | (b) "day d = 1" "1 < month d"
        "d' = d\<lparr>month := month d - 1, day := days_in_month (year d) (month d - 1)\<rparr>"
    | (c) "day d = 1" "month d = 1" "1 < year d"
        "d' = d\<lparr>year := year d - 1, month := 12, day := 31\<rparr>"
    using assms(2) v by (auto simp: sub_one_day_def split: if_splits)
  then show ?thesis
  proof cases
    case a
    have "day d - 1 < days_in_month (year d) (month d)" "day d - 1 + 1 = day d"
      using a(1) v(6) by arith+
    with a show ?thesis by (cases d) (simp add: add_one_day_def)
  next
    case b
    have "month d - 1 < 12" "month d - 1 + 1 = month d"
      using b(2) v(4) by arith+
    with b show ?thesis by (cases d) (simp add: add_one_day_def)
  next
    case c
    have "days_in_month (year d - 1) 12 = 31" by (simp add: days_in_month_def)
    moreover have "year d - 1 < 9999" "year d - 1 + 1 = year d"
      using c(3) v(2) by arith+
    ultimately show ?thesis using c by (cases d) (simp add: add_one_day_def)
  qed
qed

text \<open>
  The calendar functions agree with the library's day count: a day later is one ordinal
  more, and the comparison of dates is the comparison of ordinals.
\<close>

lemma mod_100_4: "n mod 100 = 0 \<Longrightarrow> n mod 4 = (0::nat)"
proof -
  assume "n mod 100 = 0"
  then have "100 dvd n" by (simp add: dvd_eq_mod_eq_0)
  moreover have "(4::nat) dvd 100" by simp
  ultimately have "4 dvd n" by (rule dvd_trans[rotated])
  then show ?thesis by (simp add: dvd_eq_mod_eq_0)
qed

lemma mod_400_100: "n mod 400 = 0 \<Longrightarrow> n mod 100 = (0::nat)"
proof -
  assume "n mod 400 = 0"
  then have "400 dvd n" by (simp add: dvd_eq_mod_eq_0)
  moreover have "(100::nat) dvd 400" by simp
  ultimately have "100 dvd n" by (rule dvd_trans[rotated])
  then show ?thesis by (simp add: dvd_eq_mod_eq_0)
qed

lemma div_100_le_4: "k div 100 \<le> k div (4::nat)"
  by (rule div_le_mono2) simp_all

lemma days_before_year_Suc:
  assumes "1 \<le> y"
  shows "days_before_year (Suc y) = days_before_year y + (if is_leap y then 366 else 365)"
proof -
  obtain k where k: "y = Suc k"
    using assms by (cases y) auto
  define a where "a = k div 4"
  define b where "b = k div 100"
  define c where "c = k div 400"
  have le: "b \<le> a"
    unfolding a_def b_def by (rule div_100_le_4)
  have d4: "Suc k div 4 = (if Suc k mod 4 = 0 then Suc a else a)"
    unfolding a_def by (rule div_Suc)
  have d100: "Suc k div 100 = (if Suc k mod 100 = 0 then Suc b else b)"
    unfolding b_def by (rule div_Suc)
  have d400: "Suc k div 400 = (if Suc k mod 400 = 0 then Suc c else c)"
    unfolding c_def by (rule div_Suc)
  have lhs: "days_before_year (Suc (Suc k)) = Suc k * 365 + Suc k div 4 - Suc k div 100 + Suc k div 400"
    by (simp add: days_before_year_def)
  have rhs: "days_before_year (Suc k) = k * 365 + a - b + c"
    by (simp add: days_before_year_def a_def b_def c_def)
  have m1: "Suc k mod 100 = 0 \<Longrightarrow> Suc k mod 4 = 0"
    by (rule mod_100_4)
  have m2: "Suc k mod 400 = 0 \<Longrightarrow> Suc k mod 100 = 0"
    by (rule mod_400_100)
  show ?thesis
    unfolding k lhs rhs d4 d100 d400 is_leap_def
    using le m1 m2 by (cases "Suc k mod 4 = 0"; cases "Suc k mod 100 = 0"; cases "Suc k mod 400 = 0") simp_all
qed

lemma month_cases:
  "1 \<le> m \<Longrightarrow> m \<le> 12 \<Longrightarrow>
   m = 1 \<or> m = 2 \<or> m = 3 \<or> m = 4 \<or> m = 5 \<or> m = 6 \<or> m = 7 \<or> m = 8 \<or> m = 9 \<or> m = 10 \<or>
   m = 11 \<or> m = (12::nat)"
  by arith

lemma day_of_year_le:
  assumes "valid_date d"
  shows "days_before_month (year d) (month d) + day d \<le> (if is_leap (year d) then 366 else 365)"
proof -
  have m: "1 \<le> month d" "month d \<le> 12" and dd: "day d \<le> days_in_month (year d) (month d)"
    using assms by (simp_all add: valid_date_def)
  from month_cases[OF m] dd show ?thesis
    by (elim disjE) (simp_all add: days_before_month_def days_in_month_def split: if_splits)
qed

lemma days_before_month_Suc:
  assumes "1 \<le> m" "m < 12"
  shows "days_before_month y (Suc m) = days_before_month y m + days_in_month y m"
proof -
  have "1 \<le> m" "m \<le> 12" using assms by simp_all
  from month_cases[OF this] assms(2) show ?thesis
    by (elim disjE) (simp_all add: days_before_month_def days_in_month_def)
qed

lemma days_before_month_mono:
  "1 \<le> m \<Longrightarrow> m \<le> n \<Longrightarrow> n \<le> 12 \<Longrightarrow> days_before_month y m \<le> days_before_month y n"
proof (induction n)
  case 0
  then show ?case by simp
next
  case (Suc n)
  show ?case
  proof (cases "m = Suc n")
    case True
    then show ?thesis by simp
  next
    case False
    with Suc.prems have mn: "m \<le> n" and n12: "n < 12" and n1: "1 \<le> n" by simp_all
    from Suc.IH[OF Suc.prems(1) mn] n12 days_before_month_Suc[OF n1 n12, of y]
    show ?thesis by simp
  qed
qed


lemma days_before_year_mono: "1 \<le> y \<Longrightarrow> y \<le> z \<Longrightarrow> days_before_year y \<le> days_before_year z"
proof (induction z)
  case 0
  then show ?case by simp
next
  case (Suc z)
  show ?case
  proof (cases "y = Suc z")
    case True
    then show ?thesis by simp
  next
    case False
    with Suc.prems have yz: "y \<le> z" by simp
    with Suc.prems have "1 \<le> z" by simp
    from days_before_year_Suc[OF this] Suc.IH[OF Suc.prems(1) yz]
    show ?thesis by (simp split: if_splits)
  qed
qed

lemma toordinal_less:
  assumes "valid_date a" "valid_date b" "date_less a b"
  shows "toordinal a < toordinal b"
proof -
  have va: "1 \<le> year a" "1 \<le> month a" "month a \<le> 12" "1 \<le> day a"
      "day a \<le> days_in_month (year a) (month a)"
    using assms(1) by (simp_all add: valid_date_def)
  have vb: "1 \<le> year b" "1 \<le> month b" "month b \<le> 12" "1 \<le> day b"
    using assms(2) by (simp_all add: valid_date_def)
  consider (y) "year a < year b"
    | (m) "year a = year b" "month a < month b"
    | (d) "year a = year b" "month a = month b" "day a < day b"
    using assms(3) by (auto simp: date_less_def)
  then show ?thesis
  proof cases
    case y
    have "toordinal a \<le> days_before_year (Suc (year a))"
      using day_of_year_le[OF assms(1)] days_before_year_Suc[OF va(1)]
      by (simp add: toordinal_def split: if_splits)
    also have "\<dots> \<le> days_before_year (year b)"
      using y by (intro days_before_year_mono) simp_all
    also have "\<dots> < toordinal b"
      using vb(4) by (simp add: toordinal_def)
    finally show ?thesis .
  next
    case m
    have m12: "month a < 12" using m(2) vb(3) by simp
    have "days_before_month (year a) (month a) + day a \<le> days_before_month (year a) (Suc (month a))"
      using days_before_month_Suc[OF va(2) m12, of "year a"] va(5) by simp
    also have "\<dots> \<le> days_before_month (year a) (month b)"
      using m(2) vb(3) by (intro days_before_month_mono) simp_all
    finally show ?thesis
      using m(1) vb(4) by (simp add: toordinal_def)
  next
    case d
    then show ?thesis by (simp add: toordinal_def)
  qed
qed

lemma toordinal_add_one_day:
  assumes "valid_date d" "add_one_day d = Inr d'"
  shows "toordinal d' = toordinal d + 1"
proof -
  have v: "1 \<le> year d" "year d \<le> 9999" "1 \<le> month d" "month d \<le> 12" "1 \<le> day d"
      "day d \<le> days_in_month (year d) (month d)"
    using assms(1) by (simp_all add: valid_date_def)
  consider (a) "day d < days_in_month (year d) (month d)" "d' = d\<lparr>day := day d + 1\<rparr>"
    | (b) "day d = days_in_month (year d) (month d)" "month d < 12"
        "d' = d\<lparr>month := month d + 1, day := 1\<rparr>"
    | (c) "day d = days_in_month (year d) (month d)" "month d = 12"
        "d' = d\<lparr>year := year d + 1, month := 1, day := 1\<rparr>"
    using assms(2) v by (auto simp: add_one_day_def split: if_splits)
  then show ?thesis
  proof cases
    case a
    then show ?thesis by (simp add: toordinal_def)
  next
    case b
    then show ?thesis
      using days_before_month_Suc[OF v(3) b(2), of "year d"] by (simp add: toordinal_def)
  next
    case c
    have "days_in_month (year d) 12 = 31" "days_before_month (year d + 1) 1 = 0"
        "days_before_month (year d) 12 = (if is_leap (year d) then 335 else 334)"
      by (simp_all add: days_in_month_def days_before_month_def)
    with c show ?thesis
      using days_before_year_Suc[OF v(1)] by (simp add: toordinal_def)
  qed
qed

lemma toordinal_less_iff:
  assumes "valid_date a" "valid_date b"
  shows "date_less a b \<longleftrightarrow> toordinal a < toordinal b"
proof
  assume "date_less a b"
  then show "toordinal a < toordinal b" by (rule toordinal_less[OF assms])
next
  assume lt: "toordinal a < toordinal b"
  show "date_less a b"
  proof (rule ccontr)
    assume "\<not> date_less a b"
    then have "a = b \<or> date_less b a" using date_less_total[of a b] by blast
    then have "toordinal b \<le> toordinal a"
      using toordinal_less[OF assms(2,1)] by auto
    with lt show False by simp
  qed
qed

lemma toordinal_sub_one_day:
  assumes "valid_date d" "sub_one_day d = Inr d'"
  shows "toordinal d' + 1 = toordinal d"
  using toordinal_add_one_day[OF sub_one_day_valid[OF assms] sub_add_one_day[OF assms]]
  by simp

lemma date_less_le_trans:
  "date_less a b \<Longrightarrow> \<not> date_less c b \<Longrightarrow> date_less a c"
  using date_less_total[of b c] by (auto intro: date_less_trans)

lemma date_le_less_trans:
  "\<not> date_less b a \<Longrightarrow> date_less b c \<Longrightarrow> date_less a c"
  using date_less_total[of a b] by (auto intro: date_less_trans)

section \<open>Properties of the string functions\<close>

lemma digit_char_0: "digit_char 0 = CHR ''0''"
  by (simp add: digit_char_def)

lemma digit_cases: "k < 10 \<Longrightarrow> k \<in> {0, 1, 2, 3, 4, 5, 6, 7, 8, 9 :: nat}"
  by auto

lemma digit_val_digit_char: "k < 10 \<Longrightarrow> digit_val (digit_char k) = k"
  by (drule digit_cases) (auto simp: digit_val_def digit_char_def)

lemma is_digit_digit_char: "k < 10 \<Longrightarrow> is_digit (digit_char k)"
  by (drule digit_cases) (auto simp: is_digit_def digit_char_def)

lemma digit_char_inj: "a < 10 \<Longrightarrow> b < 10 \<Longrightarrow> digit_char a = digit_char b \<Longrightarrow> a = b"
  by (metis digit_val_digit_char)

lemma div_mod_10_eq: "a div 10 = b div 10 \<Longrightarrow> a mod 10 = b mod 10 \<Longrightarrow> a = (b::nat)"
  by (metis div_mult_mod_eq)

lemma dec_1: "n < 10 \<Longrightarrow> dec n = [digit_char n]"
  by (subst dec.simps) simp

lemma dec_2: "10 \<le> n \<Longrightarrow> n < 100 \<Longrightarrow> dec n = [digit_char (n div 10), digit_char (n mod 10)]"
  by (subst dec.simps) (simp add: dec_1)

lemma dec_3:
  "100 \<le> n \<Longrightarrow> n < 1000 \<Longrightarrow>
   dec n = [digit_char (n div 10 div 10), digit_char (n div 10 mod 10), digit_char (n mod 10)]"
  by (subst dec.simps) (simp add: dec_2)

lemma dec_4:
  "1000 \<le> n \<Longrightarrow> n < 10000 \<Longrightarrow>
   dec n = [digit_char (n div 10 div 10 div 10), digit_char (n div 10 div 10 mod 10),
            digit_char (n div 10 mod 10), digit_char (n mod 10)]"
  by (subst dec.simps) (simp add: dec_3)


lemma replicate_2: "replicate 2 c = [c, c]"
  by (simp add: numeral_2_eq_2)

lemma replicate_3: "replicate 3 c = [c, c, c]"
  by (simp add: numeral_3_eq_3)

lemma zfill_2:
  assumes "n < 100"
  shows "zfill 2 (dec n) = [digit_char (n div 10), digit_char (n mod 10)]"
proof (cases "n < 10")
  case True
  then show ?thesis by (simp add: zfill_def dec_1 digit_char_0)
next
  case False
  with assms show ?thesis by (simp add: zfill_def dec_2)
qed

lemma zfill_4:
  assumes "n < 10000"
  shows "zfill 4 (dec n) =
    [digit_char (n div 10 div 10 div 10), digit_char (n div 10 div 10 mod 10),
     digit_char (n div 10 mod 10), digit_char (n mod 10)]"
proof -
  consider "n < 10" | "10 \<le> n" "n < 100" | "100 \<le> n" "n < 1000" | "1000 \<le> n"
    by linarith
  then show ?thesis
  proof cases
    case 1
    then show ?thesis by (simp add: zfill_def dec_1 digit_char_0 replicate_3)
  next
    case 2
    then show ?thesis by (simp add: zfill_def dec_2 digit_char_0 replicate_2)
  next
    case 3
    then show ?thesis by (simp add: zfill_def dec_3 digit_char_0)
  next
    case 4
    with assms show ?thesis by (simp add: zfill_def dec_4)
  qed
qed

lemma zfill_2_inj:
  assumes "a < 100" "b < 100" "zfill 2 (dec a) = zfill 2 (dec b)"
  shows "a = b"
proof -
  from assms have e: "digit_char (a div 10) = digit_char (b div 10)"
      "digit_char (a mod 10) = digit_char (b mod 10)"
    by (simp_all add: zfill_2)
  have "a div 10 = b div 10"
    using e(1) assms(1,2) by (intro digit_char_inj) simp_all
  moreover have "a mod 10 = b mod 10"
    using e(2) by (intro digit_char_inj) simp_all
  ultimately show ?thesis by (rule div_mod_10_eq)
qed

lemma zfill_4_inj:
  assumes "a < 10000" "b < 10000" "zfill 4 (dec a) = zfill 4 (dec b)"
  shows "a = b"
proof -
  from assms have e: "digit_char (a div 10 div 10 div 10) = digit_char (b div 10 div 10 div 10)"
      "digit_char (a div 10 div 10 mod 10) = digit_char (b div 10 div 10 mod 10)"
      "digit_char (a div 10 mod 10) = digit_char (b div 10 mod 10)"
      "digit_char (a mod 10) = digit_char (b mod 10)"
    by (simp_all add: zfill_4)
  have 1: "a div 10 div 10 div 10 = b div 10 div 10 div 10"
    using e(1) assms(1,2) by (intro digit_char_inj) simp_all
  have 2: "a div 10 div 10 mod 10 = b div 10 div 10 mod 10"
    using e(2) by (intro digit_char_inj) simp_all
  have 3: "a div 10 mod 10 = b div 10 mod 10"
    using e(3) by (intro digit_char_inj) simp_all
  have 4: "a mod 10 = b mod 10"
    using e(4) by (intro digit_char_inj) simp_all
  from 1 2 have "a div 10 div 10 = b div 10 div 10" by (rule div_mod_10_eq)
  from this 3 have "a div 10 = b div 10" by (rule div_mod_10_eq)
  from this 4 show ?thesis by (rule div_mod_10_eq)
qed

lemma valid_date_bounds:
  assumes "valid_date d"
  shows "year d < 10000" "month d < 100" "day d < 100"
  using assms days_in_month_le[of "year d" "month d"] by (simp_all add: valid_date_def)

lemma strftime_Y_md_shape:
  assumes "valid_date d"
  shows "strftime_Y_md d =
    [digit_char (year d div 10 div 10 div 10), digit_char (year d div 10 div 10 mod 10),
     digit_char (year d div 10 mod 10), digit_char (year d mod 10), CHR ''-'',
     digit_char (month d div 10), digit_char (month d mod 10),
     digit_char (day d div 10), digit_char (day d mod 10)]"
  using valid_date_bounds[OF assms] by (simp add: strftime_Y_md_def zfill_2 zfill_4)

lemma length_strftime_Y_md: "valid_date d \<Longrightarrow> length (strftime_Y_md d) = 9"
  by (simp add: strftime_Y_md_shape)

lemma strftime_Y_md_inj:
  assumes "valid_date a" "valid_date b" "strftime_Y_md a = strftime_Y_md b"
  shows "a = b"
proof -
  note ba = valid_date_bounds[OF assms(1)] and bb = valid_date_bounds[OF assms(2)]
  have l4: "length (zfill 4 (dec (year a))) = length (zfill 4 (dec (year b)))"
    using ba(1) bb(1) by (simp add: zfill_4)
  have l2: "length (zfill 2 (dec (month a))) = length (zfill 2 (dec (month b)))"
    using ba(2) bb(2) by (simp add: zfill_2)
  from assms(3) l4 have y: "zfill 4 (dec (year a)) = zfill 4 (dec (year b))"
    and rest: "zfill 2 (dec (month a)) @ zfill 2 (dec (day a))
             = zfill 2 (dec (month b)) @ zfill 2 (dec (day b))"
    by (simp_all add: strftime_Y_md_def)
  from rest l2 have m: "zfill 2 (dec (month a)) = zfill 2 (dec (month b))"
    and dd: "zfill 2 (dec (day a)) = zfill 2 (dec (day b))"
    by simp_all
  have "year a = year b" by (rule zfill_4_inj[OF ba(1) bb(1) y])
  moreover have "month a = month b" by (rule zfill_2_inj[OF ba(2) bb(2) m])
  moreover have "day a = day b" by (rule zfill_2_inj[OF ba(3) bb(3) dd])
  ultimately show ?thesis by simp
qed





section \<open>Properties of the spider\<close>

lemma strptime_valid: "strptime_Y_m_d s = Inr d \<Longrightarrow> valid_date d"
  by (auto simp: strptime_Y_m_d_def Let_def split: list.splits if_splits option.splits)

lemma init_yesterday:
  "init now tst = Inr self \<Longrightarrow> today self = now \<and> sub_one_day (today self) = Inr (yesterday self)"
  by (auto simp: init_def split: sum.splits)

lemma parse_Incomplete:
  assumes "snd (parse cfg ev self st body) = Inr row"
  shows "is_complete_record self (InmatePage ev body) = Inr (Incomplete row)"
  using assms by (auto simp: parse_def Let_def split: sum.splits if_splits)

lemmas strptime_eval =
  strptime_Y_m_d_def parse_month_def parse_day_def is_digit_def nonzero_digit_def digit_val_def
  valid_date_def days_in_month_def is_leap_def

lemma init_example: "init \<lparr>year = 2023, month = 6, day = 3\<rparr> False = Inr example_spider"
  by (simp add: init_def sub_one_day_def example_spider_def)

lemma strptime_0601: "strptime_Y_m_d ''2023-06-01'' = Inr \<lparr>year = 2023, month = 6, day = 1\<rparr>"
  by (simp add: strptime_eval)

lemma strptime_0602: "strptime_Y_m_d ''2023-06-02'' = Inr \<lparr>year = 2023, month = 6, day = 2\<rparr>"
  by (simp add: strptime_eval)




lemma example_filename:
  "generate_page_filename example_spider (example_inmate b) = ''2023-06-03-A1.html''"
  by (simp add: generate_page_filename_def strftime_Y_m_d_def example_spider_def
        example_inmate_def zfill_2 zfill_4 digit_char_def)

lemma save_to_s3_key:
  "upload_fault ev (s3_key cfg self inmate) = None \<Longrightarrow>
   save_to_s3 cfg ev self st body inmate =
     Inr (st\<lparr>bucket := (bucket st)(s3_key cfg self inmate \<mapsto> body)\<rparr>)"
  by (simp add: save_to_s3_def Let_def)

lemma s3_key_empty_target:
  "TARGET cfg = [] \<Longrightarrow> s3_key cfg self inmate = ''raw/'' @ generate_page_filename self inmate"
  by (simp add: s3_key_def Let_def)

lemma s3_key_hd:
  "hd (s3_key cfg self inmate) = CHR ''/'' \<longleftrightarrow>
     TARGET cfg = ''/'' \<or> take 2 (TARGET cfg) = ''//''"
proof (cases "TARGET cfg")
  case Nil
  then show ?thesis by (simp add: s3_key_def Let_def)
next
  case (Cons c cs)
  show ?thesis
  proof (cases cs)
    case Nil
    with Cons show ?thesis by (auto simp: s3_key_def Let_def)
  next
    case (Cons c' cs')
    with \<open>TARGET cfg = c # cs\<close> show ?thesis by (auto simp: s3_key_def Let_def)
  qed
qed

lemma get_local_seed_file_fallback:
  assumes "listdir ev ''data/daily'' = Inl FileNotFoundError \<or> listdir ev ''data/daily'' = Inr []"
  shows "get_local_seed_file cfg ev = Inr (FALLBACK_START_DATE cfg, [])"
  using assms by (auto simp: get_local_seed_file_def)

lemma get_s3_seed_file_empty_manifest:
  assumes "requests_get ev (manifest_url cfg) = Inr []"
  shows "get_s3_seed_file cfg ev = Inl IndexError"
  using assms by (simp add: get_s3_seed_file_def splitlines_def py_last_def)

lemma py_slice_from_tail:
  "py_slice_from (int (length xs) - 600) xs =
     drop (if 600 \<le> length xs then length xs - 600
           else if 300 < length xs then 2 * length xs - 600 else 0) xs"
  by (auto simp: py_slice_from_def Let_def nat_diff_distrib intro!: arg_cong2[where f = drop])

lemma length_day_urls: "length (day_urls cfg d) = nat (MAX_DEFAULT_JAIL_NUMBER cfg)"
  by (simp add: day_urls_def)

lemma scan_universe_one_day:
  assumes "date_less d t" "add_one_day d = Inr t"
  shows "scan_universe cfg t d urls = Inr (urls @ day_urls cfg d)"
proof -
  have "scan_universe cfg t d urls = scan_universe cfg t t (urls @ day_urls cfg d)"
    using assms by (subst scan_universe.simps) simp
  also have "\<dots> = Inr (urls @ day_urls cfg d)"
    by (subst scan_universe.simps) (simp add: date_less_irrefl)
  finally show ?thesis .
qed

lemma scan_universe_days:
  "valid_date c \<Longrightarrow> valid_date t \<Longrightarrow>
   \<exists>ds. scan_universe cfg t c urls = Inr (urls @ concat (map (day_urls cfg) ds)) \<and>
        sorted_wrt date_less ds \<and>
        set ds = {d. valid_date d \<and> \<not> date_less d c \<and> date_less d t} \<and>
        (date_less c t \<longrightarrow> ds \<noteq> [] \<and> hd ds = c)"
proof (induction cfg t c urls rule: scan_universe.induct)
  case (1 cfg tdy last_date urls)
  show ?case
  proof (cases "date_less last_date tdy")
    case False
    have empty: "{d. valid_date d \<and> \<not> date_less d last_date \<and> date_less d tdy} = {}"
      using False by (auto dest: date_le_less_trans)
    have "scan_universe cfg tdy last_date urls = Inr urls"
      using False by (subst scan_universe.simps) simp
    with empty False show ?thesis
      by (intro exI[of _ "[]"]) simp
  next
    case True
    from add_one_day_defined[OF "1.prems"(1,2) True]
    obtain nxt where nxt: "add_one_day last_date = Inr nxt" by blast
    have vn: "valid_date nxt"
      by (rule add_one_day_valid[OF "1.prems"(1) nxt])
    have lt: "date_less last_date nxt"
      by (rule add_one_day_less[OF nxt])
    from "1.IH"[OF True nxt vn "1.prems"(2)]
    obtain ds where ds:
      "scan_universe cfg tdy nxt (urls @ day_urls cfg last_date)
         = Inr ((urls @ day_urls cfg last_date) @ concat (map (day_urls cfg) ds))"
      "sorted_wrt date_less ds"
      "set ds = {d. valid_date d \<and> \<not> date_less d nxt \<and> date_less d tdy}"
      by blast
    have step: "scan_universe cfg tdy last_date urls
        = Inr (urls @ concat (map (day_urls cfg) (last_date # ds)))"
      using True nxt ds(1) by (subst scan_universe.simps) simp
    have above: "\<forall>d \<in> set ds. date_less last_date d"
      using ds(3) lt by (auto dest: date_less_le_trans)
    have sorted: "sorted_wrt date_less (last_date # ds)"
      using ds(2) above by simp
    have sub1: "\<And>d. valid_date d \<Longrightarrow> \<not> date_less d last_date \<Longrightarrow> date_less d tdy \<Longrightarrow>
        d \<noteq> last_date \<Longrightarrow> \<not> date_less d nxt"
    proof -
      fix d
      assume vd: "valid_date d" and ge: "\<not> date_less d last_date" and ne: "d \<noteq> last_date"
      from ge ne have "date_less last_date d"
        using date_less_total[of d last_date] by auto
      from add_one_day_next[OF "1.prems"(1) vd this nxt]
      show "\<not> date_less d nxt"
        by (auto simp: date_less_irrefl dest: date_less_trans)
    qed
    have sub2: "\<And>d. \<not> date_less d nxt \<Longrightarrow> \<not> date_less d last_date"
      using lt by (auto dest: date_less_trans)
    have set_eq: "set (last_date # ds)
        = {d. valid_date d \<and> \<not> date_less d last_date \<and> date_less d tdy}"
      using ds(3) "1.prems"(1) True sub1 sub2 by (auto simp: date_less_irrefl)
    from step sorted set_eq show ?thesis
      by (intro exI[of _ "last_date # ds"]) simp
  qed
qed

lemma url_format_date_inj:
  assumes "valid_date a" "valid_date b"
    and "url_format cfg (jailnumber a n) = url_format cfg (jailnumber b m)"
  shows "a = b"
proof -
  from assms(3) have "strftime_Y_md a @ format_03d n @ snd (INMATE_URL_TEMPLATE cfg)
      = strftime_Y_md b @ format_03d m @ snd (INMATE_URL_TEMPLATE cfg)"
    by (simp add: url_format_def jailnumber_def)
  moreover have "length (strftime_Y_md a) = length (strftime_Y_md b)"
    using assms(1,2) by (simp add: length_strftime_Y_md)
  ultimately have "strftime_Y_md a = strftime_Y_md b"
    by simp
  then show ?thesis by (rule strftime_Y_md_inj[OF assms(1,2)])
qed

lemma generate_urls_full:
  assumes seed: "get_seed_file cfg ev = Inr (s, f)"
    and resume: "strptime_Y_m_d s = Inr resume"
    and rows: "seed_urls cfg (DictReader ev f) = Inr seed"
    and cursor: "(if length seed \<noteq> 0 then add_one_day resume else Inr resume) = Inr c"
    and tdy: "valid_date (today self)"
  shows "\<exists>ds. generate_urls cfg ev self
           = Inr (self\<lparr>start_date := Some resume\<rparr>,
                  if testing self
                  then py_slice_from
                         (int (length (seed @ concat (map (day_urls cfg) ds))) - 600)
                         (seed @ concat (map (day_urls cfg) ds))
                  else seed @ concat (map (day_urls cfg) ds)) \<and>
         sorted_wrt date_less ds \<and>
         set ds = {d. valid_date d \<and> \<not> date_less d c \<and> date_less d (today self)} \<and>
         (date_less c (today self) \<longrightarrow> ds \<noteq> [] \<and> hd ds = c)"
proof -
  have vr: "valid_date resume"
    by (rule strptime_valid[OF resume])
  have vc: "valid_date c"
    using cursor vr by (auto split: if_splits intro: add_one_day_valid)
  from scan_universe_days[OF vc tdy, of cfg seed]
  obtain ds where ds:
    "scan_universe cfg (today self) c seed = Inr (seed @ concat (map (day_urls cfg) ds))"
    "sorted_wrt date_less ds"
    "set ds = {d. valid_date d \<and> \<not> date_less d c \<and> date_less d (today self)}"
    "date_less c (today self) \<longrightarrow> ds \<noteq> [] \<and> hd ds = c"
    by blast
  have "generate_urls cfg ev self
      = Inr (self\<lparr>start_date := Some resume\<rparr>,
             if testing self
             then py_slice_from
                    (int (length (seed @ concat (map (day_urls cfg) ds))) - 600)
                    (seed @ concat (map (day_urls cfg) ds))
             else seed @ concat (map (day_urls cfg) ds))"
    using cursor by (simp add: generate_urls_def seed resume rows ds(1) del: length_0_conv)
  with ds(2,3,4) show ?thesis by blast
qed



lemma seeded_get_seed_file:
  "get_seed_file example_config (seeded_env\<lparr>csv_rows := rows\<rparr>)
     = Inr (''2023-06-01'', example_seed_text)"
  by (simp add: get_seed_file_def get_local_seed_file_def example_config_def seeded_env_def
        example_env_def path_join_def py_first_def)

lemma set_concat_day_urls:
  "u \<in> set (concat (map (day_urls cfg) ds)) \<longleftrightarrow>
     (\<exists>d \<in> set ds. \<exists>n \<in> set [1 .. MAX_DEFAULT_JAIL_NUMBER cfg].
        u = url_format cfg (jailnumber d n))"
  by (auto simp: day_urls_def)












section \<open>The claims\<close>

text \<open>
  Claim C5. The \<^verbatim>\<open>Incomplete\<close> flag of an output row is true exactly when the record's booking
  date is strictly before today minus one day: the flag is the comparison of the parsed booking
  date with \<^verbatim>\<open>_yesterday\<close>, which holds exactly when the booking date's day number plus one
  is below today's, and a booking dated yesterday itself is not flagged.
\<close>

theorem incomplete_iff_before_yesterday:
  assumes inv: "sub_one_day (today self) = Inr (yesterday self)"
    and tdy: "valid_date (today self)"
    and bd: "strptime_Y_m_d (booking_date (InmatePage ev body)) = Inr bd"
    and row: "snd (parse cfg ev self st body) = Inr row"
  shows "Incomplete row = date_less bd (yesterday self) \<and>
         (Incomplete row \<longleftrightarrow> toordinal bd + 1 < toordinal (today self)) \<and>
         (bd = yesterday self \<longrightarrow> \<not> Incomplete row)"
proof -
  have flag: "Incomplete row = date_less bd (yesterday self)"
    using parse_Incomplete[OF row] bd by (simp add: is_complete_record_def)
  have vy: "valid_date (yesterday self)"
    by (rule sub_one_day_valid[OF tdy inv])
  have vb: "valid_date bd"
    by (rule strptime_valid[OF bd])
  have "date_less bd (yesterday self) \<longleftrightarrow> toordinal bd < toordinal (yesterday self)"
    by (rule toordinal_less_iff[OF vb vy])
  also have "\<dots> \<longleftrightarrow> toordinal bd + 1 < toordinal (today self)"
    using toordinal_sub_one_day[OF tdy inv] by linarith
  finally have ord: "date_less bd (yesterday self) \<longleftrightarrow> toordinal bd + 1 < toordinal (today self)" .
  have bnd: "bd = yesterday self \<longrightarrow> \<not> Incomplete row"
    unfolding flag by (auto simp: date_less_irrefl)
  from flag ord have "Incomplete row \<longleftrightarrow> toordinal bd + 1 < toordinal (today self)"
    by (rule trans)
  with flag bnd show ?thesis by blast
qed

theorem incomplete_iff_before_yesterday_witness:
  "(\<exists>row. snd (parse example_config example_env example_spider empty_storage ''2023-06-01'')
            = Inr row \<and> Incomplete row) \<and>
   (\<exists>row. snd (parse example_config example_env example_spider empty_storage ''2023-06-02'')
            = Inr row \<and> \<not> Incomplete row)"
proof -
  have inv: "sub_one_day (today example_spider) = Inr (yesterday example_spider)"
    by (simp add: sub_one_day_def example_spider_def)
  have tdy: "valid_date (today example_spider)"
    by (simp add: example_spider_def valid_date_def days_in_month_def)
  have bd1: "strptime_Y_m_d (booking_date (InmatePage example_env ''2023-06-01''))
      = Inr \<lparr>year = 2023, month = 6, day = 1\<rparr>"
    by (simp add: example_env_def example_inmate_def strptime_0601)
  have bd2: "strptime_Y_m_d (booking_date (InmatePage example_env ''2023-06-02''))
      = Inr \<lparr>year = 2023, month = 6, day = 2\<rparr>"
    by (simp add: example_env_def example_inmate_def strptime_0602)
  obtain r1 where r1:
    "snd (parse example_config example_env example_spider empty_storage ''2023-06-01'') = Inr r1"
    using bd1
    by (simp add: parse_def Let_def save_local_def is_complete_record_def example_config_def
          example_env_def)
  obtain r2 where r2:
    "snd (parse example_config example_env example_spider empty_storage ''2023-06-02'') = Inr r2"
    using bd2
    by (simp add: parse_def Let_def save_local_def is_complete_record_def example_config_def
          example_env_def)
  have "Incomplete r1"
    using incomplete_iff_before_yesterday[OF inv tdy bd1 r1]
    by (simp add: example_spider_def date_less_def)
  moreover have "\<not> Incomplete r2"
    using incomplete_iff_before_yesterday[OF inv tdy bd2 r2]
    by (simp add: example_spider_def date_less_def)
  ultimately show ?thesis using r1 r2 by blast
qed


text \<open>
  Claim C9. Within one run (one fixed \<^verbatim>\<open>_today\<close>) the page file name
  \<^verbatim>\<open><today>-<booking id>.html\<close> is injective in the booking identifier: two inmates get the
  same name exactly when their identifiers are equal.
\<close>

theorem page_filename_injective:
  "generate_page_filename self a = generate_page_filename self b \<longleftrightarrow> booking_id a = booking_id b"
  by (simp add: generate_page_filename_def)




text \<open>
  Claim C10, as amended. The key handed to the S3 upload is \<^verbatim>\<open><TARGET>/raw/<filename>\<close> with
  one leading slash removed. It begins with a slash only when \<^verbatim>\<open>TARGET\<close> is \<^verbatim>\<open>/\<close> or begins
  with \<^verbatim>\<open>//\<close>; for every other configuration it does not, and for the empty \<^verbatim>\<open>TARGET\<close> the
  key is \<^verbatim>\<open>raw/<filename>\<close>, so pages land under \<^verbatim>\<open>raw/\<close>.
\<close>

theorem s3_key_leading_slash:
  "(hd (s3_key cfg self inmate) = CHR ''/'' \<longleftrightarrow>
      TARGET cfg = ''/'' \<or> take 2 (TARGET cfg) = ''//'') \<and>
   (TARGET cfg = [] \<longrightarrow>
      s3_key cfg self inmate = ''raw/'' @ generate_page_filename self inmate) \<and>
   (upload_fault ev (s3_key cfg self inmate) = None \<longrightarrow>
      save_to_s3 cfg ev self st body inmate =
        Inr (st\<lparr>bucket := (bucket st)(s3_key cfg self inmate \<mapsto> body)\<rparr>))"
  using s3_key_hd[of cfg self inmate] s3_key_empty_target[of cfg self inmate]
    save_to_s3_key[of ev cfg self inmate st body]
  by blast

theorem s3_key_leading_slash_witness:
  "s3_key example_config example_spider (example_inmate ''2023-06-01'')
     = ''raw/2023-06-03-A1.html'' \<and>
   hd (s3_key example_config example_spider (example_inmate ''2023-06-01'')) \<noteq> CHR ''/'' \<and>
   save_to_s3 example_config example_env example_spider empty_storage ''page''
       (example_inmate ''2023-06-01'')
     = Inr (empty_storage\<lparr>bucket := [''raw/2023-06-03-A1.html'' \<mapsto> ''page'']\<rparr>)"
proof -
  have t: "TARGET example_config = []"
    by (simp add: example_config_def)
  have u: "upload_fault example_env
      (s3_key example_config example_spider (example_inmate ''2023-06-01'')) = None"
    by (simp add: example_env_def)
  note k = s3_key_leading_slash[of example_config example_spider
      "example_inmate ''2023-06-01''" example_env empty_storage "''page''"]
  from k t have 1: "s3_key example_config example_spider (example_inmate ''2023-06-01'')
      = ''raw/2023-06-03-A1.html''"
    by (simp add: example_filename)
  from k t have 2:
    "hd (s3_key example_config example_spider (example_inmate ''2023-06-01'')) \<noteq> CHR ''/''"
    by simp
  from k u have 3: "save_to_s3 example_config example_env example_spider empty_storage ''page''
       (example_inmate ''2023-06-01'')
     = Inr (empty_storage\<lparr>bucket := [''raw/2023-06-03-A1.html'' \<mapsto> ''page'']\<rparr>)"
    by (simp add: 1 empty_storage_def)
  from 1 2 3 show ?thesis by blast
qed

text \<open>
  The claim as stated ("for every configuration") fails for the target prefix \<^verbatim>\<open>/\<close>: only one
  of the two leading slashes of \<^verbatim>\<open>//raw/<filename>\<close> is removed.
\<close>

theorem s3_key_slash_target_counterexample:
  "s3_key (example_config\<lparr>TARGET := ''/''\<rparr>) example_spider (example_inmate ''2023-06-01'')
     = ''/raw/2023-06-03-A1.html'' \<and>
   save_to_s3 (example_config\<lparr>TARGET := ''/''\<rparr>) example_env example_spider empty_storage
       ''page'' (example_inmate ''2023-06-01'')
     = Inr (empty_storage\<lparr>bucket := [''/raw/2023-06-03-A1.html'' \<mapsto> ''page'']\<rparr>)"
  by (simp add: save_to_s3_def s3_key_def Let_def example_filename example_env_def
        empty_storage_def)

text \<open>
  Claim C4. The claim asks both manifest backends to fall back to the configured start date
  and an empty seed when the manifest is empty or absent. The local backend does
  (\<open>get_local_seed_file_fallback\<close>); the S3 backend does not: with an empty manifest body
  \<^verbatim>\<open>resp.text.splitlines().pop()\<close> raises \<^verbatim>\<open>IndexError\<close>, and so does \<^verbatim>\<open>_generate_urls\<close>.
\<close>

theorem s3_empty_manifest_raises:
  assumes "USE_S3_STORAGE cfg" "requests_get ev (manifest_url cfg) = Inr []"
  shows "get_seed_file cfg ev = Inl IndexError \<and> generate_urls cfg ev self = Inl IndexError"
  using assms get_s3_seed_file_empty_manifest[OF assms(2)]
  by (simp add: get_seed_file_def generate_urls_def)

theorem s3_empty_manifest_raises_witness:
  "generate_urls (example_config\<lparr>USE_S3_STORAGE := True\<rparr>)
     (example_env\<lparr>requests_get := (\<lambda>u. Inr [])\<rparr>) example_spider = Inl IndexError \<and>
   get_seed_file example_config example_env = Inr (''2023-01-01'', [])"
proof -
  have 1: "USE_S3_STORAGE (example_config\<lparr>USE_S3_STORAGE := True\<rparr>)"
    by simp
  have 2: "requests_get (example_env\<lparr>requests_get := (\<lambda>u. Inr [])\<rparr>)
      (manifest_url (example_config\<lparr>USE_S3_STORAGE := True\<rparr>)) = Inr []"
    by simp
  have 3: "get_seed_file example_config example_env = Inr (''2023-01-01'', [])"
    by (simp add: get_seed_file_def get_local_seed_file_def example_config_def example_env_def)
  from s3_empty_manifest_raises[OF 1 2, of example_spider] 3 show ?thesis
    by simp
qed

text \<open>
  Claim C8. In testing mode the result is \<^verbatim>\<open>urls[len(urls) - 600:]\<close>: a suffix of the full
  list in its order, and the last 600 of at least 600 URLs (\<open>py_slice_from_tail\<close>). For a
  list of 301 to 599 URLs the start index is negative and counts from the end, so the result
  is shorter than the list: of 400 generated URLs only the last 200 are returned.
\<close>

theorem testing_sample_of_400_urls:
  "\<exists>full.
     scan_universe (example_config\<lparr>MAX_DEFAULT_JAIL_NUMBER := 400,
                                   FALLBACK_START_DATE := ''2023-06-02''\<rparr>)
       \<lparr>year = 2023, month = 6, day = 3\<rparr> \<lparr>year = 2023, month = 6, day = 2\<rparr> [] = Inr full \<and>
     length full = 400 \<and>
     generate_urls (example_config\<lparr>MAX_DEFAULT_JAIL_NUMBER := 400,
                                   FALLBACK_START_DATE := ''2023-06-02''\<rparr>)
       example_env (example_spider\<lparr>testing := True\<rparr>)
     = Inr (example_spider\<lparr>testing := True,
                            start_date := Some \<lparr>year = 2023, month = 6, day = 2\<rparr>\<rparr>,
            drop 200 full) \<and>
     length (drop 200 full) = 200"
proof -
  let ?cfg = "example_config\<lparr>MAX_DEFAULT_JAIL_NUMBER := 400,
                             FALLBACK_START_DATE := ''2023-06-02''\<rparr>"
  let ?t = "\<lparr>year = 2023, month = 6, day = 3\<rparr>"
  let ?d = "\<lparr>year = 2023, month = 6, day = 2\<rparr>"
  let ?full = "day_urls ?cfg ?d"
  have lt: "date_less ?d ?t"
    by (simp add: date_less_def)
  have nx: "add_one_day ?d = Inr ?t"
    by (simp add: add_one_day_def days_in_month_def)
  have scan: "scan_universe ?cfg ?t ?d [] = Inr ?full"
    using scan_universe_one_day[OF lt nx, of ?cfg "[]"] by simp
  have len: "length ?full = 400"
    by (simp add: length_day_urls)
  have seed: "get_seed_file ?cfg example_env = Inr (''2023-06-02'', [])"
    by (simp add: get_seed_file_def get_local_seed_file_def example_config_def example_env_def)
  have slice: "py_slice_from (int (length ?full) - 600) ?full = drop 200 ?full"
    unfolding py_slice_from_tail using len by simp
  have gen: "generate_urls ?cfg example_env (example_spider\<lparr>testing := True\<rparr>)
      = Inr (example_spider\<lparr>testing := True, start_date := Some ?d\<rparr>, drop 200 ?full)"
    using seed scan slice
    by (simp add: generate_urls_def strptime_0602 DictReader_def example_spider_def)
  from scan len gen show ?thesis by simp
qed

text \<open>
  Claim C6. With the seed resolved to the date \<open>resume\<close> and the seed URLs \<open>seed\<close>, let \<open>c\<close> be
  \<open>resume\<close> plus one day when \<open>seed\<close> is not empty and \<open>resume\<close> itself when it is empty. The
  loop scans, in increasing order, exactly the days from \<open>c\<close> on that lie before today: when
  \<open>c\<close> is before today the first scanned day is \<open>c\<close>, and otherwise no day is scanned.
\<close>

theorem cursor_start:
  assumes seed: "get_seed_file cfg ev = Inr (s, f)"
    and resume: "strptime_Y_m_d s = Inr resume"
    and rows: "seed_urls cfg (DictReader ev f) = Inr seed"
    and seeded: "seed \<noteq> [] \<Longrightarrow> add_one_day resume = Inr c"
    and unseeded: "seed = [] \<Longrightarrow> c = resume"
    and tdy: "valid_date (today self)"
  shows "\<exists>ds. generate_urls cfg ev self
           = Inr (self\<lparr>start_date := Some resume\<rparr>,
                  sampled self (seed @ concat (map (day_urls cfg) ds))) \<and>
         sorted_wrt date_less ds \<and>
         set ds = {d. valid_date d \<and> \<not> date_less d c \<and> date_less d (today self)} \<and>
         (date_less c (today self) \<longrightarrow> ds \<noteq> [] \<and> hd ds = c) \<and>
         (\<not> date_less c (today self) \<longrightarrow> ds = [])"
proof -
  have cursor: "(if length seed \<noteq> 0 then add_one_day resume else Inr resume) = Inr c"
    using seeded unseeded by (cases "seed = []") simp_all
  from generate_urls_full[OF seed resume rows cursor tdy]
  obtain ds where ds:
    "generate_urls cfg ev self
       = Inr (self\<lparr>start_date := Some resume\<rparr>,
              sampled self (seed @ concat (map (day_urls cfg) ds)))"
    "sorted_wrt date_less ds"
    "set ds = {d. valid_date d \<and> \<not> date_less d c \<and> date_less d (today self)}"
    "date_less c (today self) \<longrightarrow> ds \<noteq> [] \<and> hd ds = c"
    by blast
  have "\<not> date_less c (today self) \<longrightarrow> ds = []"
  proof
    assume "\<not> date_less c (today self)"
    then have "set ds = {}"
      unfolding ds(3) by (auto dest: date_le_less_trans)
    then show "ds = []" by simp
  qed
  with ds show ?thesis by blast
qed

theorem cursor_start_witness:
  "(\<exists>ds. generate_urls example_config seeded_env example_spider
           = Inr (example_spider\<lparr>start_date := Some \<lparr>year = 2023, month = 6, day = 1\<rparr>\<rparr>,
                  [''http://example.org/details?jailnumber=A1'']
                    @ concat (map (day_urls example_config) ds)) \<and>
         ds \<noteq> [] \<and> hd ds = \<lparr>year = 2023, month = 6, day = 2\<rparr>) \<and>
   (\<exists>ds. generate_urls (example_config\<lparr>FALLBACK_START_DATE := ''2023-06-02''\<rparr>) example_env
             example_spider
           = Inr (example_spider\<lparr>start_date := Some \<lparr>year = 2023, month = 6, day = 2\<rparr>\<rparr>,
                  concat (map (day_urls (example_config\<lparr>FALLBACK_START_DATE := ''2023-06-02''\<rparr>))
                    ds)) \<and>
         ds \<noteq> [] \<and> hd ds = \<lparr>year = 2023, month = 6, day = 2\<rparr>)"
proof -
  let ?r = "\<lparr>year = 2023, month = 6, day = 1\<rparr>"
  let ?n = "\<lparr>year = 2023, month = 6, day = 2\<rparr>"
  let ?cfg = "example_config\<lparr>FALLBACK_START_DATE := ''2023-06-02''\<rparr>"
  have nxt: "add_one_day ?r = Inr ?n"
    by (simp add: add_one_day_def days_in_month_def)
  have tdy: "valid_date (today example_spider)"
    by (simp add: example_spider_def valid_date_def days_in_month_def)
  have lt: "date_less ?n (today example_spider)"
    by (simp add: example_spider_def date_less_def)
  have nt: "\<not> testing example_spider"
    by (simp add: example_spider_def)
  have seed1: "get_seed_file example_config seeded_env
      = Inr (''2023-06-01'', example_seed_text)"
    using seeded_get_seed_file[of "csv_rows seeded_env"] by simp
  have rows1: "seed_urls example_config
      (DictReader seeded_env example_seed_text)
      = Inr [''http://example.org/details?jailnumber=A1'']"
    by (simp add: DictReader_def seeded_env_def url_format_def example_config_def
          example_seed_text_def)
  have seed2: "get_seed_file ?cfg example_env = Inr (''2023-06-02'', [])"
    by (simp add: get_seed_file_def get_local_seed_file_def example_config_def example_env_def)
  have rows2: "seed_urls ?cfg (DictReader example_env []) = Inr []"
    by (simp add: DictReader_def)
  from cursor_start[OF seed1 strptime_0601 rows1 nxt _ tdy] lt nt
  have 1: "\<exists>ds. generate_urls example_config seeded_env example_spider
           = Inr (example_spider\<lparr>start_date := Some ?r\<rparr>,
                  [''http://example.org/details?jailnumber=A1'']
                    @ concat (map (day_urls example_config) ds)) \<and>
         ds \<noteq> [] \<and> hd ds = ?n"
    by auto
  from cursor_start[OF seed2 strptime_0602 rows2 _ refl tdy] lt nt
  have 2: "\<exists>ds. generate_urls ?cfg example_env example_spider
           = Inr (example_spider\<lparr>start_date := Some ?n\<rparr>,
                  concat (map (day_urls ?cfg) ds)) \<and>
         ds \<noteq> [] \<and> hd ds = ?n"
    by auto
  from 1 2 show ?thesis by blast
qed

text \<open>
  Claim C7. Whatever the seed, the generated part \<open>gen\<close> of the list holds no URL of a jail
  number dated today or later, and it is empty when the cursor is not before today, so that
  the run returns the seed URLs alone (none at all without a seed: fallback date and today
  both 1 January 2023).
\<close>

theorem no_candidate_today_or_later:
  assumes seed: "get_seed_file cfg ev = Inr (s, f)"
    and resume: "strptime_Y_m_d s = Inr resume"
    and rows: "seed_urls cfg (DictReader ev f) = Inr seed"
    and cursor: "(if length seed \<noteq> 0 then add_one_day resume else Inr resume) = Inr c"
    and tdy: "valid_date (today self)"
  shows "\<exists>gen. generate_urls cfg ev self
            = Inr (self\<lparr>start_date := Some resume\<rparr>, sampled self (seed @ gen)) \<and>
          (\<forall>d n. valid_date d \<and> \<not> date_less d (today self) \<longrightarrow>
                 url_format cfg (jailnumber d n) \<notin> set gen) \<and>
          (\<not> date_less c (today self) \<longrightarrow> gen = [])"
proof -
  from generate_urls_full[OF seed resume rows cursor tdy]
  obtain ds where ds:
    "generate_urls cfg ev self
       = Inr (self\<lparr>start_date := Some resume\<rparr>,
              sampled self (seed @ concat (map (day_urls cfg) ds)))"
    "set ds = {d. valid_date d \<and> \<not> date_less d c \<and> date_less d (today self)}"
    by blast
  have none: "\<And>d n. valid_date d \<Longrightarrow> \<not> date_less d (today self) \<Longrightarrow>
      url_format cfg (jailnumber d n) \<notin> set (concat (map (day_urls cfg) ds))"
  proof
    fix d n
    assume vd: "valid_date d" and ge: "\<not> date_less d (today self)"
      and mem: "url_format cfg (jailnumber d n) \<in> set (concat (map (day_urls cfg) ds))"
    from mem[unfolded set_concat_day_urls] obtain d' n' where d': "d' \<in> set ds"
      and eq: "url_format cfg (jailnumber d n) = url_format cfg (jailnumber d' n')"
      by blast
    from d' ds(2) have vd': "valid_date d'" and lt: "date_less d' (today self)"
      by auto
    from url_format_date_inj[OF vd vd' eq] lt ge show False
      by simp
  qed
  have empty: "\<not> date_less c (today self) \<Longrightarrow> concat (map (day_urls cfg) ds) = []"
  proof -
    assume "\<not> date_less c (today self)"
    then have "set ds = {}"
      unfolding ds(2) by (auto dest: date_le_less_trans)
    then show ?thesis by simp
  qed
  from ds(1) none empty show ?thesis by blast
qed

theorem no_candidate_today_or_later_witness:
  "generate_urls example_config example_env
     (example_spider\<lparr>today := \<lparr>year = 2023, month = 1, day = 1\<rparr>\<rparr>)
   = Inr (example_spider\<lparr>today := \<lparr>year = 2023, month = 1, day = 1\<rparr>,
                          start_date := Some \<lparr>year = 2023, month = 1, day = 1\<rparr>\<rparr>, [])"
proof -
  let ?d = "\<lparr>year = 2023, month = 1, day = 1\<rparr>"
  let ?sp = "example_spider\<lparr>today := ?d\<rparr>"
  have seed: "get_seed_file example_config example_env = Inr (''2023-01-01'', [])"
    by (simp add: get_seed_file_def get_local_seed_file_def example_config_def example_env_def)
  have resume: "strptime_Y_m_d ''2023-01-01'' = Inr ?d"
    by (simp add: strptime_eval)
  have rows: "seed_urls example_config (DictReader example_env []) = Inr []"
    by (simp add: DictReader_def)
  have cursor: "(if length ([] :: string list) \<noteq> 0 then add_one_day ?d else Inr ?d) = Inr ?d"
    by simp
  have tdy: "valid_date (today ?sp)"
    by (simp add: valid_date_def days_in_month_def)
  have ge: "\<not> date_less ?d (today ?sp)"
    by (simp add: date_less_def)
  from no_candidate_today_or_later[OF seed resume rows cursor tdy] ge
  show ?thesis
    by (auto simp: py_slice_from_def)
qed







end
